theory Spec2Isabelle
  imports Complex_Main
begin

section \<open>JavaScript strings and values\<close>

text \<open>
  A JavaScript string is modelled as a \<^typ>\<open>string\<close>: one \<^typ>\<open>char\<close> per UTF-16 code
  unit, for the code units \<open>0x00\<close> to \<open>0xFF\<close>. Text with code units above \<open>0xFF\<close> is
  outside the model.
\<close>

subsection \<open>String.prototype methods used by the application\<close>

definition js_startsWith :: "string \<Rightarrow> string \<Rightarrow> bool" where
  \<comment> \<open>\<open>s.startsWith(p)\<close>\<close>
  "js_startsWith p s = (take (length p) s = p)"

definition js_substring :: "nat \<Rightarrow> string \<Rightarrow> string" where
  \<comment> \<open>\<open>s.substring(n)\<close>, one argument\<close>
  "js_substring n s = drop n s"

text \<open>
  \<open>s.split(sep)\<close> with a string separator and no limit: the text is cut at the leftmost
  occurrences of \<open>sep\<close> that do not overlap; an empty separator cuts between all code units.
  \<open>split_from sep cur s\<close> scans \<open>s\<close> with \<open>cur\<close> the segment read so far.
\<close>

function split_from :: "string \<Rightarrow> string \<Rightarrow> string \<Rightarrow> string list" where
  "split_from sep cur s =
     (if s = [] then [cur]
      else if sep \<noteq> [] \<and> take (length sep) s = sep
        then cur # split_from sep [] (drop (length sep) s)
      else split_from sep (cur @ [hd s]) (tl s))"
  by pat_completeness auto
termination
  by (relation "measure (\<lambda>(sep, cur, s). length s)") auto

definition js_split :: "string \<Rightarrow> string \<Rightarrow> string list" where
  "js_split sep s = (if sep = [] then map (\<lambda>c. [c]) s else split_from sep [] s)"

definition js_is_whitespace :: "char \<Rightarrow> bool" where
  \<comment> \<open>WhiteSpace and LineTerminator code units up to \<open>0xFF\<close>: TAB, LF, VT, FF, CR, SP, NBSP\<close>
  "js_is_whitespace c = ((of_char c :: nat) \<in> {9, 10, 11, 12, 13, 32, 160})"

definition js_trim :: "string \<Rightarrow> string" where
  "js_trim s = rev (dropWhile js_is_whitespace (rev (dropWhile js_is_whitespace s)))"

subsection \<open>Values\<close>

text \<open>
  Numbers carry their exact rational value; the rounding of IEEE doubles is not modelled.
  \<open>NaN\<close> and the infinities are kept, since division by zero produces them.
\<close>

datatype jsnum = Fin rat | NaN | PosInf | NegInf

datatype jsval =
    JUndefined
  | JNull
  | JBool bool
  | JNum jsnum
  | JStr string
  | JArr "jsval list"
  | JObj "(string \<times> jsval) list"

datatype js_error = TypeError


subsection \<open>Operators on values\<close>

text \<open>
  The platform supplies what the string model cannot compute: the decimal text of a number
  (\<open>String(n)\<close>) and \<open>String.prototype.toUpperCase\<close>, whose result may leave the code
  units up to \<open>0xFF\<close>. The functions below take them as a parameter.
\<close>

record platform =
  numberToString :: "jsnum \<Rightarrow> string"
  toUpperCase :: "string \<Rightarrow> string"

definition js_truthy :: "jsval \<Rightarrow> bool" where
  "js_truthy v =
     (case v of
        JUndefined \<Rightarrow> False
      | JNull \<Rightarrow> False
      | JBool b \<Rightarrow> b
      | JNum n \<Rightarrow> n \<noteq> NaN \<and> n \<noteq> Fin 0
      | JStr s \<Rightarrow> s \<noteq> []
      | JArr _ \<Rightarrow> True
      | JObj _ \<Rightarrow> True)"

definition js_or :: "jsval \<Rightarrow> jsval \<Rightarrow> jsval" where
  \<comment> \<open>\<open>a || b\<close> on values already computed (reading a property has no effect)\<close>
  "js_or a b = (if js_truthy a then a else b)"

text \<open>
  \<open>v.name\<close> for a data property \<open>name\<close>: reading from \<open>undefined\<close> or \<open>null\<close> throws,
  an object from \<open>JSON.parse\<close> gives the member of that name or \<open>undefined\<close>, any other
  value gives \<open>undefined\<close>. Names inherited from a prototype (\<open>length\<close>, \<open>constructor\<close>, ...)
  are not modelled; the application reads none of them from a parsed value.
\<close>

definition js_get :: "jsval \<Rightarrow> string \<Rightarrow> js_error + jsval" where
  "js_get v name =
     (case v of
        JUndefined \<Rightarrow> Inl TypeError
      | JNull \<Rightarrow> Inl TypeError
      | JObj members \<Rightarrow>
          (case map_of (rev members) name of None \<Rightarrow> Inr JUndefined | Some x \<Rightarrow> Inr x)
      | _ \<Rightarrow> Inr JUndefined)"

definition js_get2 :: "jsval \<Rightarrow> string \<Rightarrow> string \<Rightarrow> js_error + jsval" where
  \<comment> \<open>\<open>v.a.b\<close>\<close>
  "js_get2 v a b = (case js_get v a of Inl e \<Rightarrow> Inl e | Inr w \<Rightarrow> js_get w b)"

fun js_join :: "string \<Rightarrow> string list \<Rightarrow> string" where
  "js_join sep [] = []"
| "js_join sep [x] = x"
| "js_join sep (x # y # ys) = x @ sep @ js_join sep (y # ys)"

text \<open>\<open>String(v)\<close>, which a template literal applies to each substitution.\<close>

fun js_to_string :: "platform \<Rightarrow> jsval \<Rightarrow> string" where
  "js_to_string pf JUndefined = ''undefined''"
| "js_to_string pf JNull = ''null''"
| "js_to_string pf (JBool b) = (if b then ''true'' else ''false'')"
| "js_to_string pf (JNum n) = numberToString pf n"
| "js_to_string pf (JStr s) = s"
| "js_to_string pf (JArr vs) =
     js_join '','' (map (\<lambda>v. if v = JUndefined \<or> v = JNull then [] else js_to_string pf v) vs)"
| "js_to_string pf (JObj members) = ''[object Object]''"

fun num_add :: "jsnum \<Rightarrow> jsnum \<Rightarrow> jsnum" where
  "num_add NaN y = NaN"
| "num_add x NaN = NaN"
| "num_add (Fin a) (Fin b) = Fin (a + b)"
| "num_add (Fin a) y = y"
| "num_add x (Fin b) = x"
| "num_add PosInf PosInf = PosInf"
| "num_add NegInf NegInf = NegInf"
| "num_add PosInf NegInf = NaN"
| "num_add NegInf PosInf = NaN"

fun num_mul :: "jsnum \<Rightarrow> jsnum \<Rightarrow> jsnum" where
  "num_mul NaN y = NaN"
| "num_mul x NaN = NaN"
| "num_mul (Fin a) (Fin b) = Fin (a * b)"
| "num_mul (Fin a) PosInf = (if a = 0 then NaN else if 0 < a then PosInf else NegInf)"
| "num_mul (Fin a) NegInf = (if a = 0 then NaN else if 0 < a then NegInf else PosInf)"
| "num_mul PosInf (Fin b) = (if b = 0 then NaN else if 0 < b then PosInf else NegInf)"
| "num_mul NegInf (Fin b) = (if b = 0 then NaN else if 0 < b then NegInf else PosInf)"
| "num_mul PosInf PosInf = PosInf"
| "num_mul NegInf NegInf = PosInf"
| "num_mul PosInf NegInf = NegInf"
| "num_mul NegInf PosInf = NegInf"

text \<open>
  Division does not throw on a zero divisor: it gives \<open>NaN\<close> or an infinity (the sign of
  zero is not modelled, a zero divisor counts as \<open>+0\<close>).
\<close>

fun num_div :: "jsnum \<Rightarrow> jsnum \<Rightarrow> jsnum" where
  "num_div NaN y = NaN"
| "num_div x NaN = NaN"
| "num_div (Fin a) (Fin b) =
     (if b = 0 then (if a = 0 then NaN else if 0 < a then PosInf else NegInf) else Fin (a / b))"
| "num_div (Fin a) y = Fin 0"
| "num_div PosInf (Fin b) = (if b < 0 then NegInf else PosInf)"
| "num_div NegInf (Fin b) = (if b < 0 then PosInf else NegInf)"
| "num_div x y = NaN"

definition js_to_primitive :: "platform \<Rightarrow> jsval \<Rightarrow> jsval" where
  "js_to_primitive pf v =
     (case v of JArr _ \<Rightarrow> JStr (js_to_string pf v) | JObj _ \<Rightarrow> JStr (js_to_string pf v) | _ \<Rightarrow> v)"

definition js_to_number :: "jsval \<Rightarrow> jsnum" where
  \<comment> \<open>\<open>Number(v)\<close> on the primitives that are not strings\<close>
  "js_to_number v =
     (case v of JNull \<Rightarrow> Fin 0 | JBool b \<Rightarrow> (if b then Fin 1 else Fin 0) | JNum n \<Rightarrow> n | _ \<Rightarrow> NaN)"

definition js_add :: "platform \<Rightarrow> jsval \<Rightarrow> jsval \<Rightarrow> jsval" where
  \<comment> \<open>the binary \<open>+\<close>: concatenation when either side is a string, else a sum of numbers\<close>
  "js_add pf a b =
     (let pa = js_to_primitive pf a; pb = js_to_primitive pf b
      in if (case pa of JStr _ \<Rightarrow> True | _ \<Rightarrow> False) \<or> (case pb of JStr _ \<Rightarrow> True | _ \<Rightarrow> False)
         then JStr (js_to_string pf pa @ js_to_string pf pb)
         else JNum (num_add (js_to_number pa) (js_to_number pb)))"

text \<open>
  The result of a method that mutates the component and may throw: the state it leaves,
  and the exception if one escaped.
\<close>

datatype 's outcome = Returned 's | Threw js_error 's

section \<open>JSON.parse\<close>

text \<open>
  \<open>JSON.parse\<close> belongs to the platform, so the stream consumer below takes the parser as
  a parameter: \<open>None\<close> stands for the \<open>SyntaxError\<close> it throws. \<open>json_parse\<close> is a reader
  for the JSON grammar that the examples run on. It keeps the members of an object in the
  order of the text; reading a property takes the last member with that name. Escapes
  \<open>\uXXXX\<close> above \<open>00FF\<close> lie outside the string model and are refused here.
\<close>

definition is_json_ws :: "char \<Rightarrow> bool" where
  "is_json_ws c = ((of_char c :: nat) \<in> {32, 9, 10, 13})"

definition skip_ws :: "string \<Rightarrow> string" where
  "skip_ws s = dropWhile is_json_ws s"

definition is_digit :: "char \<Rightarrow> bool" where
  "is_digit c = (48 \<le> (of_char c :: nat) \<and> (of_char c :: nat) \<le> 57)"

definition digits_value :: "string \<Rightarrow> nat" where
  "digits_value ds = foldl (\<lambda>a d. 10 * a + (of_char d - 48)) 0 ds"

definition hex_value :: "char \<Rightarrow> nat option" where
  "hex_value c =
     (let n = (of_char c :: nat) in
      if 48 \<le> n \<and> n \<le> 57 then Some (n - 48)
      else if 65 \<le> n \<and> n \<le> 70 then Some (n - 55)
      else if 97 \<le> n \<and> n \<le> 102 then Some (n - 87)
      else None)"

definition hex4 :: "char \<Rightarrow> char \<Rightarrow> char \<Rightarrow> char \<Rightarrow> nat option" where
  "hex4 a b c d =
     (case (hex_value a, hex_value b, hex_value c, hex_value d) of
        (Some w, Some x, Some y, Some z) \<Rightarrow> Some (4096 * w + 256 * x + 16 * y + z)
      | _ \<Rightarrow> None)"

definition unescape :: "char \<Rightarrow> char option" where
  "unescape e =
     (if e = CHR 0x22 then Some (CHR 0x22)
      else if e = CHR 0x5C then Some (CHR 0x5C)
      else if e = CHR ''/'' then Some (CHR ''/'')
      else if e = CHR ''b'' then Some (CHR 0x08)
      else if e = CHR ''f'' then Some (CHR 0x0C)
      else if e = CHR ''n'' then Some (CHR 0x0A)
      else if e = CHR ''r'' then Some (CHR 0x0D)
      else if e = CHR ''t'' then Some (CHR 0x09)
      else None)"

text \<open>The characters of a string literal, read after its opening quote.\<close>

fun json_string_body :: "string \<Rightarrow> (string \<times> string) option" where
  "json_string_body [] = None"
| "json_string_body (c # cs) =
     (if c = CHR 0x22 then Some ([], cs)
      else if c = CHR 0x5C then
        (case cs of
           [] \<Rightarrow> None
         | e # rest \<Rightarrow>
             (if e = CHR ''u'' then
                (case rest of
                   h1 # h2 # h3 # h4 # rest' \<Rightarrow>
                     (case hex4 h1 h2 h3 h4 of
                        None \<Rightarrow> None
                      | Some n \<Rightarrow>
                          (if n < 256 then
                             (case json_string_body rest' of
                                None \<Rightarrow> None
                              | Some (s, r) \<Rightarrow> Some (char_of n # s, r))
                           else None))
                 | _ \<Rightarrow> None)
              else
                (case unescape e of
                   None \<Rightarrow> None
                 | Some ch \<Rightarrow>
                     (case json_string_body rest of
                        None \<Rightarrow> None
                      | Some (s, r) \<Rightarrow> Some (ch # s, r)))))
      else if (of_char c :: nat) < 32 then None
      else
        (case json_string_body cs of
           None \<Rightarrow> None
         | Some (s, r) \<Rightarrow> Some (c # s, r)))"

text \<open>
  A number: an optional minus, an integer part without leading zeros, an optional
  fraction and an optional exponent.
\<close>

definition json_int_part :: "string \<Rightarrow> (string \<times> string) option" where
  "json_int_part s =
     (case s of
        [] \<Rightarrow> None
      | c # r \<Rightarrow>
          if c = CHR ''0'' then Some (''0'', r)
          else if is_digit c then Some (takeWhile is_digit s, dropWhile is_digit s)
          else None)"

definition json_frac_part :: "string \<Rightarrow> (string \<times> string) option" where
  "json_frac_part s =
     (case s of
        [] \<Rightarrow> Some ([], s)
      | c # r \<Rightarrow>
          if c = CHR ''.'' then
            (if takeWhile is_digit r = [] then None
             else Some (takeWhile is_digit r, dropWhile is_digit r))
          else Some ([], s))"

definition json_exp_sign :: "string \<Rightarrow> bool \<times> string" where
  "json_exp_sign s =
     (case s of
        [] \<Rightarrow> (False, s)
      | c # r \<Rightarrow>
          if c = CHR ''-'' then (True, r) else if c = CHR ''+'' then (False, r) else (False, s))"

definition json_exp_part :: "string \<Rightarrow> (int \<times> string) option" where
  "json_exp_part s =
     (case s of
        [] \<Rightarrow> Some (0, s)
      | c # r \<Rightarrow>
          if c = CHR ''e'' \<or> c = CHR ''E'' then
            (case json_exp_sign r of
               (neg, r') \<Rightarrow>
                 if takeWhile is_digit r' = [] then None
                 else Some ((if neg then - int (digits_value (takeWhile is_digit r'))
                             else int (digits_value (takeWhile is_digit r'))),
                            dropWhile is_digit r'))
          else Some (0, s))"

definition json_number_value :: "bool \<Rightarrow> string \<Rightarrow> string \<Rightarrow> int \<Rightarrow> rat" where
  "json_number_value neg ip fp e =
     (let mant = (of_nat (digits_value (ip @ fp)) :: rat) / 10 ^ length fp;
          scaled = (if e < 0 then mant / 10 ^ nat (- e) else mant * 10 ^ nat e)
      in if neg then - scaled else scaled)"

definition json_number :: "string \<Rightarrow> (jsnum \<times> string) option" where
  "json_number s =
     (case (case s of [] \<Rightarrow> (False, s) | c # r \<Rightarrow> if c = CHR ''-'' then (True, r) else (False, s)) of
        (neg, s1) \<Rightarrow>
          (case json_int_part s1 of
             None \<Rightarrow> None
           | Some (ip, s2) \<Rightarrow>
               (case json_frac_part s2 of
                  None \<Rightarrow> None
                | Some (fp, s3) \<Rightarrow>
                    (case json_exp_part s3 of
                       None \<Rightarrow> None
                     | Some (e, s4) \<Rightarrow> Some (Fin (json_number_value neg ip fp e), s4)))))"

definition expect :: "char \<Rightarrow> string \<Rightarrow> string option" where
  \<comment> \<open>the rest of the text after the character \<open>c\<close>, when the text starts with it\<close>
  "expect c s = (case s of [] \<Rightarrow> None | d # r \<Rightarrow> if d = c then Some r else None)"

text \<open>
  Values, array elements and object members. The recursion is on fuel, one unit per call;
  \<open>json_parse\<close> starts with more fuel than the text has room for calls.
\<close>

fun json_value :: "nat \<Rightarrow> string \<Rightarrow> (jsval \<times> string) option"
  and json_elements :: "nat \<Rightarrow> string \<Rightarrow> (jsval list \<times> string) option"
  and json_members :: "nat \<Rightarrow> string \<Rightarrow> ((string \<times> jsval) list \<times> string) option"
where
  "json_value fuel s =
     (if fuel = 0 then None
      else if js_startsWith ''{'' s then
        (case expect (CHR ''}'') (skip_ws (tl s)) of
           Some r \<Rightarrow> Some (JObj [], r)
         | None \<Rightarrow>
             (case json_members (fuel - 1) (tl s) of
                None \<Rightarrow> None
              | Some (ms, r) \<Rightarrow> Some (JObj ms, r)))
      else if js_startsWith ''['' s then
        (case expect (CHR '']'') (skip_ws (tl s)) of
           Some r \<Rightarrow> Some (JArr [], r)
         | None \<Rightarrow>
             (case json_elements (fuel - 1) (tl s) of
                None \<Rightarrow> None
              | Some (vs, r) \<Rightarrow> Some (JArr vs, r)))
      else if js_startsWith [CHR 0x22] s then
        (case json_string_body (tl s) of
           None \<Rightarrow> None
         | Some (str, r) \<Rightarrow> Some (JStr str, r))
      else if js_startsWith ''true'' s then Some (JBool True, drop 4 s)
      else if js_startsWith ''false'' s then Some (JBool False, drop 5 s)
      else if js_startsWith ''null'' s then Some (JNull, drop 4 s)
      else
        (case json_number s of
           None \<Rightarrow> None
         | Some (n, r) \<Rightarrow> Some (JNum n, r)))"
| "json_elements fuel s =
     (if fuel = 0 then None
      else
        (case json_value (fuel - 1) (skip_ws s) of
           None \<Rightarrow> None
         | Some (v, r) \<Rightarrow>
             (case expect (CHR '','') (skip_ws r) of
                Some r' \<Rightarrow>
                  (case json_elements (fuel - 1) r' of
                     None \<Rightarrow> None
                   | Some (vs, r'') \<Rightarrow> Some (v # vs, r''))
              | None \<Rightarrow>
                  (case expect (CHR '']'') (skip_ws r) of
                     Some r' \<Rightarrow> Some ([v], r')
                   | None \<Rightarrow> None))))"
| "json_members fuel s =
     (if fuel = 0 then None
      else
        (case expect (CHR 0x22) (skip_ws s) of
           None \<Rightarrow> None
         | Some r0 \<Rightarrow>
             (case json_string_body r0 of
                None \<Rightarrow> None
              | Some (k, r1) \<Rightarrow>
                  (case expect (CHR '':'') (skip_ws r1) of
                     None \<Rightarrow> None
                   | Some r2 \<Rightarrow>
                       (case json_value (fuel - 1) (skip_ws r2) of
                          None \<Rightarrow> None
                        | Some (v, r3) \<Rightarrow>
                            (case expect (CHR '','') (skip_ws r3) of
                               Some r4 \<Rightarrow>
                                 (case json_members (fuel - 1) r4 of
                                    None \<Rightarrow> None
                                  | Some (ms, r5) \<Rightarrow> Some ((k, v) # ms, r5))
                             | None \<Rightarrow>
                                 (case expect (CHR ''}'') (skip_ws r3) of
                                    Some r4 \<Rightarrow> Some ([(k, v)], r4)
                                  | None \<Rightarrow> None)))))))"

definition json_parse :: "string \<Rightarrow> jsval option" where
  "json_parse s =
     (case json_value (2 * length s + 2) (skip_ws s) of
        None \<Rightarrow> None
      | Some (v, r) \<Rightarrow> if skip_ws r = [] then Some v else None)"

declare split_from.simps [simp del]
declare json_value.simps [simp del] json_elements.simps [simp del] json_members.simps [simp del]


section \<open>The stream consumer: \<open>AgentStreamService.streamAnswer\<close>\<close>

subsection \<open>The RxJS Subject\<close>

text \<open>
  What a subscriber of the Subject is told, in order. A Subject that has signalled
  \<open>error\<close> or \<open>complete\<close> is stopped: later calls of \<open>next\<close>, \<open>error\<close> and
  \<open>complete\<close> tell the subscriber nothing.
\<close>

datatype ('e, 'x) notification = Next 'e | Error 'x | Complete

record ('e, 'x) subject =
  told :: "('e, 'x) notification list"
  isStopped :: bool

definition new_subject :: "('e, 'x) subject" where
  "new_subject = \<lparr>told = [], isStopped = False\<rparr>"

definition subject_next :: "'e \<Rightarrow> ('e, 'x) subject \<Rightarrow> ('e, 'x) subject" where
  "subject_next e s = (if isStopped s then s else s\<lparr>told := told s @ [Next e]\<rparr>)"

definition subject_error :: "'x \<Rightarrow> ('e, 'x) subject \<Rightarrow> ('e, 'x) subject" where
  "subject_error x s =
     (if isStopped s then s else s\<lparr>told := told s @ [Error x], isStopped := True\<rparr>)"

definition subject_complete :: "('e, 'x) subject \<Rightarrow> ('e, 'x) subject" where
  "subject_complete s =
     (if isStopped s then s else s\<lparr>told := told s @ [Complete], isStopped := True\<rparr>)"

subsection \<open>The observer of the HTTP request\<close>

text \<open>
  The events of Angular's \<open>HttpClient\<close> under \<open>observe: 'events'\<close>, in the order of
  \<open>HttpEventType\<close>. A \<open>DownloadProgress\<close> event carries the optional \<open>partialText\<close>.
\<close>

datatype http_event =
    Sent
  | UploadProgress
  | ResponseHeader
  | DownloadProgress "string option"
  | Response
  | User

text \<open>What the request's observable sends to the observer.\<close>

datatype 'x http_signal = HttpNext http_event | HttpError 'x | HttpComplete

text \<open>
  The state the callbacks work on: the Subject, and the texts that \<open>console.error\<close> was
  called for (one entry per event that failed to parse).
\<close>

record ('e, 'x) stream_state =
  subject :: "('e, 'x) subject"
  console_error :: "string list"

definition sse_separator :: string where
  "sse_separator = [CHR 0x0A, CHR 0x0A]"

definition on_line :: "(string \<Rightarrow> 'e option) \<Rightarrow> string \<Rightarrow> ('e, 'x) stream_state \<Rightarrow> ('e, 'x) stream_state" where
  \<comment> \<open>the body of the \<open>forEach\<close> callback, with its \<open>try\<close>/\<open>catch\<close>\<close>
  "on_line parse line st =
     (if js_startsWith ''data: '' line then
        (let jsonData = js_substring 6 line in
         case parse jsonData of
           Some parsedEvent \<Rightarrow> st\<lparr>subject := subject_next parsedEvent (subject st)\<rparr>
         | None \<Rightarrow> st\<lparr>console_error := console_error st @ [jsonData]\<rparr>)
      else st)"

definition on_next :: "(string \<Rightarrow> 'e option) \<Rightarrow> http_event \<Rightarrow> ('e, 'x) stream_state \<Rightarrow> ('e, 'x) stream_state" where
  "on_next parse event st =
     (case event of
        DownloadProgress partialText \<Rightarrow>
          (let text = (case partialText of None \<Rightarrow> [] | Some t \<Rightarrow> t);
               lines = js_split sse_separator text
           in fold (on_line parse) lines st)
      | Response \<Rightarrow> st\<lparr>subject := subject_complete (subject st)\<rparr>
      | _ \<Rightarrow> st)"

fun observer :: "(string \<Rightarrow> 'e option) \<Rightarrow> 'x http_signal \<Rightarrow> ('e, 'x) stream_state \<Rightarrow> ('e, 'x) stream_state" where
  "observer parse (HttpNext event) st = on_next parse event st"
| "observer parse (HttpError error) st = st\<lparr>subject := subject_error error (subject st)\<rparr>"
| "observer parse HttpComplete st = st\<lparr>subject := subject_complete (subject st)\<rparr>"

definition streamAnswer :: "(string \<Rightarrow> 'e option) \<Rightarrow> 'x http_signal list \<Rightarrow> ('e, 'x) stream_state" where
  \<comment> \<open>the state after the request's observable has sent the given signals\<close>
  "streamAnswer parse signals =
     fold (observer parse) signals \<lparr>subject = new_subject, console_error = []\<rparr>"

definition emitted :: "('e, 'x) stream_state \<Rightarrow> 'e list" where
  \<comment> \<open>the events the subscriber received on its \<open>next\<close> channel\<close>
  "emitted st = concat (map (\<lambda>n. case n of Next e \<Rightarrow> [e] | _ \<Rightarrow> []) (told (subject st)))"

definition completions :: "('e, 'x) stream_state \<Rightarrow> nat" where
  "completions st = length (filter (\<lambda>n. n = Complete) (told (subject st)))"

definition failures :: "('e, 'x) stream_state \<Rightarrow> 'x list" where
  "failures st = concat (map (\<lambda>n. case n of Error x \<Rightarrow> [x] | _ \<Rightarrow> []) (told (subject st)))"


subsection \<open>Deliveries and frames\<close>

text \<open>
  One delivery callback: a \<open>DownloadProgress\<close> event with the given \<open>partialText\<close>.
\<close>

definition delivery :: "string \<Rightarrow> 'x http_signal" where
  "delivery text = HttpNext (DownloadProgress (Some text))"

text \<open>
  What the contract says one segment and one delivered text yield: a segment with the
  prefix \<open>data: \<close> is parsed with the prefix stripped, and is dropped when the parser fails.
\<close>

definition frame_event :: "(string \<Rightarrow> 'e option) \<Rightarrow> string \<Rightarrow> 'e option" where
  "frame_event parse segment =
     (if js_startsWith ''data: '' segment then parse (js_substring 6 segment) else None)"

definition delivery_events :: "(string \<Rightarrow> 'e option) \<Rightarrow> string \<Rightarrow> 'e list" where
  "delivery_events parse text = List.map_filter (frame_event parse) (js_split sse_separator text)"

text \<open>What \<open>console.error\<close> is called for: the text after the prefix, when the parser fails.\<close>

definition frame_reject :: "(string \<Rightarrow> 'e option) \<Rightarrow> string \<Rightarrow> string list" where
  "frame_reject parse segment =
     (if js_startsWith ''data: '' segment \<and> parse (js_substring 6 segment) = None
      then [js_substring 6 segment] else [])"

definition delivery_rejects :: "(string \<Rightarrow> 'e option) \<Rightarrow> string \<Rightarrow> string list" where
  "delivery_rejects parse text = concat (map (frame_reject parse) (js_split sse_separator text))"

definition settled :: "('e, 'x) stream_state \<Rightarrow> bool" where
  \<comment> \<open>no failure was signalled, and completion was signalled once iff the Subject is stopped\<close>
  "settled st = (failures st = [] \<and> completions st = (if isStopped (subject st) then 1 else 0))"

text \<open>Two frames of the wire format, the events they encode, and a body split inside the second.\<close>

definition start_frame :: string where
  "start_frame = ''data: {\"event_type\":\"start\",\"timestamp\":\"t0\",\"data\":{\"message\":\"Processing\"}}''"

definition complete_frame :: string where
  "complete_frame = ''data: {\"event_type\":\"complete\",\"timestamp\":\"t1\",\"data\":{\"success\":true}}''"

definition start_event :: jsval where
  "start_event =
     JObj [(''event_type'', JStr ''start''), (''timestamp'', JStr ''t0''),
           (''data'', JObj [(''message'', JStr ''Processing'')])]"

definition complete_event :: jsval where
  "complete_event =
     JObj [(''event_type'', JStr ''complete''), (''timestamp'', JStr ''t1''),
           (''data'', JObj [(''success'', JBool True)])]"

definition first_part :: string where
  "first_part = start_frame @ sse_separator @ ''da''"

definition second_part :: string where
  "second_part = drop 2 complete_frame @ sse_separator"

definition broken_frame :: string where
  \<comment> \<open>a frame cut off inside its JSON text\<close>
  "broken_frame = ''data: {\"event_type\":''"

definition broken_then_good :: string where
  "broken_then_good = broken_frame @ sse_separator @ start_frame @ sse_separator"

section \<open>The interview room: \<open>InterviewRoomComponent\<close>\<close>

text \<open>
  A field keeps its TypeScript type when every assignment to it has that type; a field
  that is assigned a value of type \<open>any\<close> (a property of \<open>event.data\<close>) holds a
  \<^typ>\<open>jsval\<close>. \<open>new Date()\<close> is the parameter \<open>now\<close>; the field \<open>context\<close> is
  \<open>context_text\<close> here.
\<close>

datatype role = RoleUser | RoleAgent | RoleSystem

record message =
  role :: role
  content :: jsval
  timestamp :: nat
  agentType :: "jsval option"

record history_entry =
  hist_question :: string
  hist_answer :: jsval
  hist_agent :: jsval

record question_request =
  req_question :: string
  req_context :: "string option"
  req_conversation_history :: "history_entry list"

record interview_room =
  question :: string
  context_text :: string
  messages :: "message list"
  currentAnswer :: jsval
  isStreaming :: bool
  currentAgent :: jsval
  routingReasoning :: jsval
  confidence :: jsval
  followUpQuestions :: jsval
  conversationHistory :: "history_entry list"
  streamingStatus :: jsval
  showRouting :: bool
  showProcessing :: bool

definition addUserMessage :: "nat \<Rightarrow> string \<Rightarrow> interview_room \<Rightarrow> interview_room" where
  "addUserMessage now text c =
     c\<lparr>messages := messages c @ [\<lparr>role = RoleUser, content = JStr text, timestamp = now, agentType = None\<rparr>]\<rparr>"

definition addAgentMessage :: "nat \<Rightarrow> jsval \<Rightarrow> jsval \<Rightarrow> interview_room \<Rightarrow> interview_room" where
  "addAgentMessage now text agent_type c =
     c\<lparr>messages := messages c @ [\<lparr>role = RoleAgent, content = text, timestamp = now, agentType = Some agent_type\<rparr>]\<rparr>"

definition addSystemMessage :: "nat \<Rightarrow> string \<Rightarrow> interview_room \<Rightarrow> interview_room" where
  "addSystemMessage now text c =
     c\<lparr>messages := messages c @ [\<lparr>role = RoleSystem, content = JStr text, timestamp = now, agentType = None\<rparr>]\<rparr>"

definition formatAgentName :: "platform \<Rightarrow> jsval \<Rightarrow> js_error + string" where
  \<comment> \<open>only a string has the method \<open>split\<close>\<close>
  "formatAgentName pf agent_type =
     (case agent_type of
        JStr s \<Rightarrow> Inr (js_join '' '' (map (\<lambda>word. toUpperCase pf (take 1 word) @ drop 1 word) (js_split ''_'' s)))
      | _ \<Rightarrow> Inl TypeError)"

text \<open>
  \<open>sendQuestion\<close> returns the new state and the request it hands to
  \<open>streamAnswer\<close>, if it starts a stream. The three callbacks of the subscription are
  \<open>room_handleStreamEvent\<close>, \<open>room_stream_error\<close> and \<open>room_stream_complete\<close>.
\<close>

definition sendQuestion :: "nat \<Rightarrow> interview_room \<Rightarrow> interview_room \<times> question_request option" where
  "sendQuestion now c =
     (if js_trim (question c) = [] then (c, None)
      else
        (let c1 = addUserMessage now (question c) c;
             c2 = c1\<lparr>currentAnswer := JStr [], followUpQuestions := JArr [], isStreaming := True,
                     showRouting := False, showProcessing := False\<rparr>;
             request = \<lparr>req_question = question c2,
                        req_context = (if context_text c2 = [] then None else Some (context_text c2)),
                        req_conversation_history = conversationHistory c2\<rparr>;
             c3 = c2\<lparr>question := []\<rparr>
         in (c3, Some request)))"

definition room_stream_error :: "nat \<Rightarrow> interview_room \<Rightarrow> interview_room" where
  "room_stream_error now c =
     addSystemMessage now ''Error: Failed to get answer. Please try again.'' (c\<lparr>isStreaming := False\<rparr>)"

definition room_stream_complete :: "string \<Rightarrow> interview_room \<Rightarrow> interview_room" where
  "room_stream_complete currentQuestion c =
     (let c1 = c\<lparr>isStreaming := False\<rparr>
      in if js_truthy (currentAnswer c1)
         then c1\<lparr>conversationHistory := conversationHistory c1 @
                 [\<lparr>hist_question = currentQuestion, hist_answer = currentAnswer c1, hist_agent = currentAgent c1\<rparr>]\<rparr>
         else c1)"

definition room_handleStreamEvent :: "platform \<Rightarrow> nat \<Rightarrow> jsval \<Rightarrow> interview_room \<Rightarrow> interview_room outcome" where
  "room_handleStreamEvent pf now event c =
     (case js_get event ''event_type'' of
        Inl e \<Rightarrow> Threw e c
      | Inr event_type \<Rightarrow>
          if event_type = JStr ''start'' then
            (case js_get2 event ''data'' ''message'' of
               Inl e \<Rightarrow> Threw e c
             | Inr m \<Rightarrow> Returned (c\<lparr>streamingStatus := m\<rparr>))
          else if event_type = JStr ''routing'' then
            (case (js_get2 event ''data'' ''selected_agent'', js_get2 event ''data'' ''reasoning'',
                   js_get2 event ''data'' ''confidence'') of
               (Inr a, Inr r, Inr k) \<Rightarrow>
                 (let c1 = c\<lparr>currentAgent := a, routingReasoning := r, confidence := k, showRouting := True\<rparr>
                  in case formatAgentName pf (currentAgent c1) of
                       Inl e \<Rightarrow> Threw e c1
                     | Inr name \<Rightarrow> Returned (c1\<lparr>streamingStatus := JStr (''Routed to '' @ name @ '' agent'')\<rparr>))
             | _ \<Rightarrow> Threw TypeError c)
          else if event_type = JStr ''processing'' then
            (let c1 = c\<lparr>showProcessing := True\<rparr>
             in case js_get2 event ''data'' ''message'' of
                  Inl e \<Rightarrow> Threw e c1
                | Inr m \<Rightarrow> Returned (c1\<lparr>streamingStatus := m\<rparr>))
          else if event_type = JStr ''content'' then
            (case js_get2 event ''data'' ''chunk'' of
               Inl e \<Rightarrow> Threw e c
             | Inr chunk \<Rightarrow> Returned (c\<lparr>currentAnswer := js_add pf (currentAnswer c) chunk\<rparr>))
          else if event_type = JStr ''answer_complete'' then
            (case js_get2 event ''data'' ''full_answer'' of
               Inl e \<Rightarrow> Threw e c
             | Inr full \<Rightarrow>
                 (let c1 = c\<lparr>currentAnswer := full\<rparr>;
                      c2 = addAgentMessage now (currentAnswer c1) (currentAgent c1) c1
                  in Returned (c2\<lparr>streamingStatus := JStr ''Answer complete''\<rparr>)))
          else if event_type = JStr ''follow_ups'' then
            (case js_get2 event ''data'' ''questions'' of
               Inl e \<Rightarrow> Threw e c
             | Inr qs \<Rightarrow> Returned (c\<lparr>followUpQuestions := js_or qs (JArr [])\<rparr>))
          else if event_type = JStr ''complete'' then
            Returned (c\<lparr>streamingStatus := JStr ''Complete'', showRouting := False, showProcessing := False\<rparr>)
          else if event_type = JStr ''error'' then
            (case js_get2 event ''data'' ''message'' of
               Inl e \<Rightarrow> Threw e c
             | Inr m \<Rightarrow>
                 Returned ((addSystemMessage now (''Error: '' @ js_to_string pf m) c)\<lparr>isStreaming := False\<rparr>))
          else Returned c)"

section \<open>The search page: \<open>SearchComponent\<close>\<close>

text \<open>
  The \<open>StreamingState\<close> object; an optional field that is absent reads as \<open>undefined\<close>.
  The stream handlers touch no other field of the component.
\<close>

record streaming_state =
  ss_isStreaming :: bool
  ss_selectedAgent :: jsval
  ss_routingReasoning :: jsval
  ss_confidence :: jsval
  ss_streamedAnswer :: jsval
  ss_fullAnswer :: jsval
  ss_followUpQuestions :: jsval
  ss_error :: jsval
  ss_processingMessage :: jsval

definition resetStreamingState :: streaming_state where
  \<comment> \<open>the object that \<open>resetStreamingState\<close> assigns to \<open>streamingState\<close>\<close>
  "resetStreamingState =
     \<lparr>ss_isStreaming = True, ss_selectedAgent = JUndefined, ss_routingReasoning = JUndefined,
      ss_confidence = JUndefined, ss_streamedAnswer = JStr [], ss_fullAnswer = JUndefined,
      ss_followUpQuestions = JArr [], ss_error = JUndefined, ss_processingMessage = JUndefined\<rparr>"

definition search_handleStreamEvent :: "platform \<Rightarrow> jsval \<Rightarrow> streaming_state \<Rightarrow> streaming_state outcome" where
  "search_handleStreamEvent pf event st =
     (case js_get event ''event_type'' of
        Inl e \<Rightarrow> Threw e st
      | Inr event_type \<Rightarrow>
          if event_type = JStr ''start'' then
            (case js_get2 event ''data'' ''message'' of
               Inl e \<Rightarrow> Threw e st
             | Inr m \<Rightarrow> Returned (st\<lparr>ss_processingMessage := m\<rparr>))
          else if event_type = JStr ''routing'' then
            (case (js_get2 event ''data'' ''selected_agent'', js_get2 event ''data'' ''reasoning'',
                   js_get2 event ''data'' ''confidence'') of
               (Inr a, Inr r, Inr k) \<Rightarrow>
                 Returned (st\<lparr>ss_selectedAgent := a, ss_routingReasoning := r, ss_confidence := k\<rparr>)
             | _ \<Rightarrow> Threw TypeError st)
          else if event_type = JStr ''processing'' then
            (case js_get2 event ''data'' ''message'' of
               Inl e \<Rightarrow> Threw e st
             | Inr m \<Rightarrow> Returned (st\<lparr>ss_processingMessage := m\<rparr>))
          else if event_type = JStr ''content'' then
            (case js_get2 event ''data'' ''chunk'' of
               Inl e \<Rightarrow> Threw e st
             | Inr chunk \<Rightarrow> Returned (st\<lparr>ss_streamedAnswer := js_add pf (ss_streamedAnswer st) chunk\<rparr>))
          else if event_type = JStr ''answer_complete'' then
            (case js_get2 event ''data'' ''full_answer'' of
               Inl e \<Rightarrow> Threw e st
             | Inr full \<Rightarrow> Returned (st\<lparr>ss_fullAnswer := full, ss_streamedAnswer := full\<rparr>))
          else if event_type = JStr ''follow_ups'' then
            (case js_get2 event ''data'' ''questions'' of
               Inl e \<Rightarrow> Threw e st
             | Inr qs \<Rightarrow> Returned (st\<lparr>ss_followUpQuestions := js_or qs (JArr [])\<rparr>))
          else if event_type = JStr ''complete'' then
            Returned (st\<lparr>ss_isStreaming := False\<rparr>)
          else if event_type = JStr ''error'' then
            (case (js_get2 event ''data'' ''error'', js_get2 event ''data'' ''message'') of
               (Inr err, Inr m) \<Rightarrow> Returned (st\<lparr>ss_error := js_or err m, ss_isStreaming := False\<rparr>)
             | _ \<Rightarrow> Threw TypeError st)
          else Returned st)"

definition handleStreamError :: "streaming_state \<Rightarrow> streaming_state" where
  "handleStreamError st =
     st\<lparr>ss_error := JStr ''Failed to get answer from API. Please try again.'', ss_isStreaming := False\<rparr>"

definition handleStreamComplete :: "streaming_state \<Rightarrow> streaming_state" where
  "handleStreamComplete st = st\<lparr>ss_isStreaming := False\<rparr>"


section \<open>\<open>SanitizeHtmlPipe.transform\<close>\<close>

text \<open>
  The result is the string \<open>''\<close> or the value of \<open>bypassSecurityTrustHtml\<close>. The regular
  expression engine is the parameter \<open>replace\<close>: \<open>replace (source, flags) replacement text\<close>
  stands for \<open>text.replace(/source/flags, replacement)\<close>. The argument is a \<^typ>\<open>jsval\<close>,
  since a template can pass \<open>null\<close> or \<open>undefined\<close>; only a string has the method
  \<open>replace\<close>.
\<close>

datatype safe_html = PlainString string | TrustedHtml string

type_synonym regex = "string \<times> string"

definition bs :: string where
  \<comment> \<open>the backslash\<close>
  "bs = [CHR 0x5C]"

definition markdown_rules :: "(regex \<times> string) list" where
  \<comment> \<open>the replacements before the paragraph wrap, in the order of the source\<close>
  "markdown_rules =
    [((''```(['' @ bs @ ''s'' @ bs @ ''S]*?)```'', ''g''), ''<pre class=\"code-block\"><code>$1</code></pre>''),
     ((''`([^`]+)`'', ''g''), ''<code class=\"inline-code\">$1</code>''),
     ((bs @ ''*'' @ bs @ ''*(.+?)'' @ bs @ ''*'' @ bs @ ''*'', ''g''), ''<strong>$1</strong>''),
     ((''__(.+?)__'', ''g''), ''<strong>$1</strong>''),
     ((bs @ ''*(.+?)'' @ bs @ ''*'', ''g''), ''<em>$1</em>''),
     ((''_(.+?)_'', ''g''), ''<em>$1</em>''),
     ((''^### (.+)$'', ''gm''), ''<h3>$1</h3>''),
     ((''^## (.+)$'', ''gm''), ''<h2>$1</h2>''),
     ((''^# (.+)$'', ''gm''), ''<h1>$1</h1>''),
     ((''^'' @ bs @ ''* (.+)$'', ''gm''), ''<li>$1</li>''),
     ((''^- (.+)$'', ''gm''), ''<li>$1</li>''),
     ((''(<li>.*<'' @ bs @ ''/li>'' @ bs @ ''n?)+'', ''g''), ''<ul>$&</ul>''),
     ((''^'' @ bs @ ''d+'' @ bs @ ''. (.+)$'', ''gm''), ''<li>$1</li>''),
     ((bs @ ''[([^'' @ bs @ '']]+)'' @ bs @ '']'' @ bs @ ''(([^)]+)'' @ bs @ '')'', ''g''),
        ''<a href=\"$2\" target=\"_blank\" rel=\"noopener\">$1</a>''),
     ((''^> (.+)$'', ''gm''), ''<blockquote>$1</blockquote>''),
     ((''^---$'', ''gm''), ''<hr>''),
     ((''^'' @ bs @ ''*'' @ bs @ ''*'' @ bs @ ''*$'', ''gm''), ''<hr>''),
     ((bs @ ''n'' @ bs @ ''n'', ''g''), ''</p><p>''),
     ((bs @ ''n'', ''g''), ''<br>'')]"

definition cleanup_rules :: "(regex \<times> string) list" where
  \<comment> \<open>the replacements after the paragraph wrap\<close>
  "cleanup_rules =
    [((''<p><'' @ bs @ ''/p>'', ''g''), []),
     ((''<p>'' @ bs @ ''s*<'' @ bs @ ''/p>'', ''g''), [])]"

definition transform :: "(regex \<Rightarrow> string \<Rightarrow> string \<Rightarrow> string) \<Rightarrow> jsval \<Rightarrow> js_error + safe_html" where
  "transform replace v =
     (if \<not> js_truthy v then Inr (PlainString [])
      else
        (case v of
           JStr text \<Rightarrow>
             (let html = fold (\<lambda>(re, rep) h. replace re rep h) markdown_rules text;
                  html = (if \<not> js_startsWith ''<'' html then ''<p>'' @ html @ ''</p>'' else html);
                  html = fold (\<lambda>(re, rep) h. replace re rep h) cleanup_rules html
              in Inr (TrustedHtml html))
         | _ \<Rightarrow> Inl TypeError))"

section \<open>\<open>ListInterviewsComponent\<close>\<close>

record interview =
  interview_id :: int
  company_name :: string
  role_name :: string
  interview_type :: string
  seniority_level :: string
  interview_status :: string
  interview_result :: string
  first_interview_date :: string
  application_date :: string
  total_rounds :: int
  preparation_hours :: "int option"

record list_interviews =
  interviews :: "interview list"
  filteredInterviews :: "interview list"
  statusFilter :: string
  searchTerm :: string

definition getTotalInterviews :: "list_interviews \<Rightarrow> nat" where
  "getTotalInterviews c = length (interviews c)"

definition getActiveInterviews :: "list_interviews \<Rightarrow> nat" where
  "getActiveInterviews c =
     length (filter (\<lambda>i. interview_status i = ''scheduled'' \<or> interview_status i = ''in_progress'')
               (interviews c))"

definition getCompletedInterviews :: "list_interviews \<Rightarrow> nat" where
  "getCompletedInterviews c = length (filter (\<lambda>i. interview_status i = ''completed'') (interviews c))"

definition getSuccessRate :: "list_interviews \<Rightarrow> jsnum" where
  "getSuccessRate c =
     (let completed = filter (\<lambda>i. interview_status i = ''completed'') (interviews c);
          successful = filter (\<lambda>i. interview_result i \<in> set [''passed'', ''hire'', ''strong_hire'']) completed
      in if length completed > 0
         then num_mul (num_div (Fin (of_nat (length successful))) (Fin (of_nat (length completed)))) (Fin 100)
         else Fin 0)"


section \<open>The stream producer of the backend\<close>

text \<open>
  Modelled from the spec: the producer of the endpoint \<open>POST /api/agents/answer-stream\<close>
  (the async generator of the FastAPI backend) is not among the sources. The definitions of
  this section follow the specification's component design 4.1, its payloads (section 6) and
  its error taxonomy (section 7). The classification step, the LLM call and the follow-up
  request are outside the producer: each is given by its outcome, a failure message or a
  result. The status texts and the two configured lengths are parameters.
\<close>

text \<open>Modelled from the spec: the StreamEvent of the wire contract with its payloads (section 6).\<close>

datatype stream_event =
    EvStart string string
      \<comment> \<open>status, the question\<close>
  | EvRouting string string rat
      \<comment> \<open>selected agent, reasoning, confidence\<close>
  | EvProcessing string
  | EvContent string bool
      \<comment> \<open>chunk, is\_final\<close>
  | EvAnswerComplete string nat nat string
      \<comment> \<open>full answer, word count, character count, metadata\<close>
  | EvFollowUps "string list"
  | EvComplete string string bool
      \<comment> \<open>message, agent used, success\<close>
  | EvError string

text \<open>
  Modelled from the spec: the configuration the producer reads, the minimum question length,
  the chunk length and the status texts, whose values the specification leaves open.
\<close>

record producer_config =
  min_question_length :: nat
  chunk_length :: nat
  start_status :: string
  processing_status :: "string \<Rightarrow> string"
  complete_message :: string

function slice_chunks :: "nat \<Rightarrow> string \<Rightarrow> string list" where
  \<comment> \<open>Modelled from the spec: the answer split into substrings of the configured length\<close>
  "slice_chunks n s = (if n = 0 \<or> s = [] then [] else take n s # slice_chunks n (drop n s))"
  by pat_completeness auto
termination
  by (relation "measure (\<lambda>(n, s). length s)") auto

fun content_events :: "string list \<Rightarrow> stream_event list" where
  \<comment> \<open>Modelled from the spec: one content event per chunk, \<open>is_final\<close> only on the last\<close>
  "content_events [] = []"
| "content_events [c] = [EvContent c True]"
| "content_events (c # d # cs) = EvContent c False # content_events (d # cs)"

fun count_words :: "bool \<Rightarrow> string \<Rightarrow> nat" where
  \<comment> \<open>Modelled from the spec: the runs of non-blank characters; the flag says that a word is being read\<close>
  "count_words inside [] = 0"
| "count_words inside (c # cs) =
     (if js_is_whitespace c then count_words False cs
      else (if inside then 0 else 1) + count_words True cs)"

definition generate_stream_events ::
  "producer_config \<Rightarrow> string \<Rightarrow> string + (string \<times> string \<times> rat) \<Rightarrow> string + (string \<times> string)
     \<Rightarrow> string + string list \<Rightarrow> stream_event list" where
  \<comment> \<open>Modelled from the spec: steps 1 to 7 of 4.1 with its error policy\<close>
  "generate_stream_events cfg q route_result answer_result follow_up_result =
     EvStart (start_status cfg) q #
     (case route_result of
        Inl failure \<Rightarrow> [EvError failure]
      | Inr (selected_agent, reasoning, conf) \<Rightarrow>
          EvRouting selected_agent reasoning conf #
          EvProcessing (processing_status cfg selected_agent) #
          (case answer_result of
             Inl failure \<Rightarrow> [EvError failure]
           | Inr (full_answer, metadata) \<Rightarrow>
               content_events (slice_chunks (chunk_length cfg) full_answer) @
               EvAnswerComplete full_answer (count_words False full_answer) (length full_answer) metadata #
               (case follow_up_result of
                  Inl failure \<Rightarrow> [EvError failure]
                | Inr questions \<Rightarrow>
                    [EvFollowUps questions, EvComplete (complete_message cfg) selected_agent True])))"

definition answer_stream ::
  "producer_config \<Rightarrow> string \<Rightarrow> string + (string \<times> string \<times> rat) \<Rightarrow> string + (string \<times> string)
     \<Rightarrow> string + string list \<Rightarrow> nat + stream_event list" where
  \<comment> \<open>Modelled from the spec: a question below the minimum length is answered with HTTP 400
      before any event; an accepted question gets the producer's events\<close>
  "answer_stream cfg q route_result answer_result follow_up_result =
     (if length q < min_question_length cfg then Inl 400
      else Inr (generate_stream_events cfg q route_result answer_result follow_up_result))"

text \<open>The parts of an event sequence that the properties speak about.\<close>

definition is_start :: "stream_event \<Rightarrow> bool" where
  "is_start e = (case e of EvStart _ _ \<Rightarrow> True | _ \<Rightarrow> False)"

definition is_routing :: "stream_event \<Rightarrow> bool" where
  "is_routing e = (case e of EvRouting _ _ _ \<Rightarrow> True | _ \<Rightarrow> False)"

definition is_complete :: "stream_event \<Rightarrow> bool" where
  "is_complete e = (case e of EvComplete _ _ _ \<Rightarrow> True | _ \<Rightarrow> False)"

definition is_error :: "stream_event \<Rightarrow> bool" where
  "is_error e = (case e of EvError _ \<Rightarrow> True | _ \<Rightarrow> False)"

definition content_chunks :: "stream_event list \<Rightarrow> string list" where
  "content_chunks evs = concat (map (\<lambda>e. case e of EvContent c _ \<Rightarrow> [c] | _ \<Rightarrow> []) evs)"

definition final_flags :: "stream_event list \<Rightarrow> bool list" where
  "final_flags evs = concat (map (\<lambda>e. case e of EvContent _ f \<Rightarrow> [f] | _ \<Rightarrow> []) evs)"

definition full_answers :: "stream_event list \<Rightarrow> string list" where
  "full_answers evs = concat (map (\<lambda>e. case e of EvAnswerComplete a _ _ _ \<Rightarrow> [a] | _ \<Rightarrow> []) evs)"

declare slice_chunks.simps [simp del]


section \<open>Example inputs\<close>

definition error_event :: "jsval \<Rightarrow> string \<Rightarrow> jsval" where
  \<comment> \<open>an \<open>error\<close> event whose payload is exactly \<open>{message: m}\<close>\<close>
  "error_event ts m =
     JObj [(''event_type'', JStr ''error''), (''timestamp'', ts), (''data'', JObj [(''message'', JStr m)])]"

definition plain_platform :: platform where
  \<comment> \<open>a platform for examples that convert no number and no letter\<close>
  "plain_platform = \<lparr>numberToString = (\<lambda>n. []), toUpperCase = (\<lambda>s. s)\<rparr>"

definition fresh_room :: interview_room where
  \<comment> \<open>the component after \<open>ngOnInit\<close> at time 0\<close>
  "fresh_room =
     \<lparr>question = [], context_text = [],
      messages = [\<lparr>role = RoleSystem,
                   content = JStr ''Welcome to the AI Interview Room! Ask any interview question and I will help you prepare.'',
                   timestamp = 0, agentType = None\<rparr>],
      currentAnswer = JStr [], isStreaming = False, currentAgent = JStr [], routingReasoning = JStr [],
      confidence = JNum (Fin 0), followUpQuestions = JArr [], conversationHistory = [],
      streamingStatus = JStr [], showRouting = False, showProcessing = False\<rparr>"

definition sample_interviews :: "interview list" where
  \<comment> \<open>the entries 1, 3 and 5 of \<open>loadHardcodedData\<close>\<close>
  "sample_interviews =
    [\<lparr>interview_id = 1, company_name = ''Google'', role_name = ''Senior Product Manager'',
      interview_type = ''actual'', seniority_level = ''senior'', interview_status = ''scheduled'',
      interview_result = ''pending'', first_interview_date = ''2025-01-15'',
      application_date = ''2025-01-05'', total_rounds = 5, preparation_hours = Some 20\<rparr>,
     \<lparr>interview_id = 3, company_name = ''Amazon'', role_name = ''Product Manager'',
      interview_type = ''actual'', seniority_level = ''mid_level'', interview_status = ''completed'',
      interview_result = ''passed'', first_interview_date = ''2024-12-20'',
      application_date = ''2024-12-10'', total_rounds = 4, preparation_hours = Some 18\<rparr>,
     \<lparr>interview_id = 5, company_name = ''Netflix'', role_name = ''Product Head'',
      interview_type = ''actual'', seniority_level = ''director'', interview_status = ''completed'',
      interview_result = ''no_hire'', first_interview_date = ''2024-12-15'',
      application_date = ''2024-12-01'', total_rounds = 6, preparation_hours = Some 30\<rparr>]"

definition sample_list :: list_interviews where
  "sample_list =
     \<lparr>interviews = sample_interviews, filteredInterviews = sample_interviews,
      statusFilter = ''all'', searchTerm = []\<rparr>"

definition sample_config :: producer_config where
  "sample_config =
     \<lparr>min_question_length = 5, chunk_length = 5, start_status = ''Processing your question'',
      processing_status = (\<lambda>a. ''Generating answer with '' @ a), complete_message = ''Done''\<rparr>"

definition sample_events :: "stream_event list" where
  \<comment> \<open>the sequence for the answer \<open>Hello world\<close> in chunks of five characters\<close>
  "sample_events =
    [EvStart ''Processing your question'' ''What is CAP?'',
     EvRouting ''technical'' ''keyword match'' (9 / 10),
     EvProcessing ''Generating answer with technical'',
     EvContent ''Hello'' False,
     EvContent '' worl'' False,
     EvContent ''d'' True,
     EvAnswerComplete ''Hello world'' 2 11 ''{}'',
     EvFollowUps [''Why?''],
     EvComplete ''Done'' ''technical'' True]"

section \<open>Properties of the stream consumer\<close>

subsection \<open>The loop over the segments of one delivery\<close>

lemma on_line_subject:
  "subject (on_line parse line st) =
     (case frame_event parse line of None \<Rightarrow> subject st | Some e \<Rightarrow> subject_next e (subject st))"
  by (simp add: on_line_def frame_event_def Let_def split: option.splits)

lemma fold_on_line_open:
  "\<not> isStopped (subject st) \<Longrightarrow>
     told (subject (fold (on_line parse) lines st)) =
       told (subject st) @ map Next (List.map_filter (frame_event parse) lines)
     \<and> \<not> isStopped (subject (fold (on_line parse) lines st))"
proof (induction lines arbitrary: st)
  case Nil
  then show ?case by (simp add: List.map_filter_simps)
next
  case (Cons l ls)
  have open': "\<not> isStopped (subject (on_line parse l st))"
    using Cons.prems by (simp add: on_line_subject subject_next_def split: option.splits)
  have told': "told (subject (on_line parse l st)) =
      told (subject st) @ map Next (List.map_filter (frame_event parse) [l])"
    using Cons.prems
    by (simp add: on_line_subject subject_next_def List.map_filter_simps split: option.splits)
  from Cons.IH [OF open'] told' show ?case
    by (simp add: List.map_filter_simps split: option.splits)
qed

lemma fold_on_line_stopped:
  "isStopped (subject st) \<Longrightarrow> subject (fold (on_line parse) lines st) = subject st"
proof (induction lines arbitrary: st)
  case Nil
  then show ?case by simp
next
  case (Cons l ls)
  have "subject (on_line parse l st) = subject st"
    using Cons.prems by (simp add: on_line_subject subject_next_def split: option.splits)
  with Cons show ?case by simp
qed

lemma on_next_progress_open:
  assumes "\<not> isStopped (subject st)"
  shows "told (subject (on_next parse (DownloadProgress (Some text)) st)) =
           told (subject st) @ map Next (delivery_events parse text)"
    and "\<not> isStopped (subject (on_next parse (DownloadProgress (Some text)) st))"
  using fold_on_line_open [OF assms, of parse "js_split sse_separator text"]
  by (simp_all add: on_next_def delivery_events_def)

lemma fold_delivery_open:
  "\<not> isStopped (subject st) \<Longrightarrow>
     told (subject (fold (observer parse) (map delivery texts) st)) =
       told (subject st) @ map Next (concat (map (delivery_events parse) texts))
     \<and> \<not> isStopped (subject (fold (observer parse) (map delivery texts) st))"
proof (induction texts arbitrary: st)
  case Nil
  then show ?case by simp
next
  case (Cons t ts)
  from Cons.IH [OF on_next_progress_open(2) [OF Cons.prems]]
  show ?case
    by (simp add: delivery_def on_next_progress_open(1) [OF Cons.prems])
qed

lemma streamAnswer_deliveries:
  fixes parse :: "string \<Rightarrow> 'e option"
  defines "run \<equiv> \<lambda>texts. (streamAnswer parse (map delivery texts) :: ('e, 'x) stream_state)"
  shows "told (subject (run texts)) = map Next (concat (map (delivery_events parse) texts))"
    and "\<not> isStopped (subject (run texts))"
proof -
  have "\<not> isStopped (subject (\<lparr>subject = new_subject, console_error = []\<rparr> :: ('e, 'x) stream_state))"
    by (simp add: new_subject_def)
  from fold_delivery_open [OF this, of parse texts]
  show "told (subject (run texts)) = map Next (concat (map (delivery_events parse) texts))"
    and "\<not> isStopped (subject (run texts))"
    by (simp_all add: run_def streamAnswer_def new_subject_def)
qed

lemma on_line_console:
  "console_error (on_line parse line st) = console_error st @ frame_reject parse line"
  by (simp add: on_line_def frame_reject_def Let_def split: option.splits)

lemma fold_on_line_console:
  "console_error (fold (on_line parse) lines st) =
     console_error st @ concat (map (frame_reject parse) lines)"
  by (induction lines arbitrary: st) (simp_all add: on_line_console)

lemma fold_delivery_console:
  "console_error (fold (observer parse) (map delivery texts) st) =
     console_error st @ concat (map (delivery_rejects parse) texts)"
  by (induction texts arbitrary: st)
     (simp_all add: delivery_def on_next_def fold_on_line_console delivery_rejects_def)

lemma streamAnswer_console:
  "console_error (streamAnswer parse (map delivery texts)) = concat (map (delivery_rejects parse) texts)"
  by (simp add: streamAnswer_def fold_delivery_console)

lemma told_only_Next:
  assumes "told (subject st) = map Next es"
  shows "emitted st = es" and "failures st = []" and "completions st = 0"
proof -
  have "concat (map (\<lambda>n. case n of Next e \<Rightarrow> [e] | _ \<Rightarrow> []) (map Next es)) = es"
    by (induction es) simp_all
  then show "emitted st = es" by (simp only: emitted_def assms)
  have "concat (map (\<lambda>n. case n of Error x \<Rightarrow> [x] | _ \<Rightarrow> []) (map Next es)) = []"
    by (induction es) simp_all
  then show "failures st = []" by (simp only: failures_def assms)
  have "filter (\<lambda>n. n = Complete) (map Next es) = []"
    by (induction es) simp_all
  then show "completions st = 0" by (simp add: completions_def assms)
qed


subsection \<open>Evaluating the example frames\<close>

lemmas json_eval = json_parse_def json_value.simps json_members.simps json_elements.simps
  js_startsWith_def skip_ws_def is_json_ws_def expect_def json_number_def is_digit_def digits_value_def
  json_int_part_def json_frac_part_def json_exp_part_def json_exp_sign_def json_number_value_def

lemmas split_eval = js_split_def split_from.simps sse_separator_def

lemma parse_start_frame: "json_parse (js_substring 6 start_frame) = Some start_event"
  by (simp add: js_substring_def start_frame_def start_event_def json_eval)

lemma parse_complete_frame: "json_parse (js_substring 6 complete_frame) = Some complete_event"
  by (simp add: js_substring_def complete_frame_def complete_event_def json_eval)

lemma frame_event_start: "frame_event json_parse start_frame = Some start_event"
  unfolding frame_event_def parse_start_frame by (simp add: js_startsWith_def start_frame_def)

lemma frame_event_complete: "frame_event json_parse complete_frame = Some complete_event"
  unfolding frame_event_def parse_complete_frame by (simp add: js_startsWith_def complete_frame_def)

lemma frame_event_fragments:
  "frame_event parse ''da'' = None"
  "frame_event parse [] = None"
  "frame_event parse (drop 2 complete_frame) = None"
  by (simp_all add: frame_event_def js_startsWith_def complete_frame_def)

lemma frame_event_broken: "frame_event json_parse broken_frame = None"
  by (simp add: frame_event_def broken_frame_def js_substring_def json_eval)

lemma split_first_part: "js_split sse_separator first_part = [start_frame, ''da'']"
  by (simp add: first_part_def start_frame_def split_eval)

lemma split_whole_body:
  "js_split sse_separator (first_part @ second_part) = [start_frame, complete_frame, []]"
  by (simp add: first_part_def second_part_def start_frame_def complete_frame_def split_eval)

lemma split_second_part: "js_split sse_separator second_part = [drop 2 complete_frame, []]"
  by (simp add: second_part_def complete_frame_def split_eval)

lemma split_broken_then_good:
  "js_split sse_separator broken_then_good = [broken_frame, start_frame, []]"
  by (simp add: broken_then_good_def broken_frame_def start_frame_def split_eval)

lemma split_complete_frame:
  "js_split sse_separator (complete_frame @ sse_separator) = [complete_frame, []]"
  by (simp add: complete_frame_def split_eval)

lemma delivery_events_parts:
  "delivery_events json_parse first_part = [start_event]"
  "delivery_events json_parse (first_part @ second_part) = [start_event, complete_event]"
  "delivery_events json_parse second_part = []"
  "delivery_events json_parse broken_then_good = [start_event]"
  "delivery_events json_parse (complete_frame @ sse_separator) = [complete_event]"
  by (simp_all add: delivery_events_def split_first_part split_whole_body split_second_part
      split_broken_then_good split_complete_frame List.map_filter_simps
      frame_event_start frame_event_complete frame_event_fragments frame_event_broken)

lemma delivery_rejects_parts:
  "delivery_rejects json_parse broken_then_good = [''{\"event_type\":'']"
  "delivery_rejects json_parse (complete_frame @ sse_separator) = []"
proof -
  have "frame_reject json_parse broken_frame = [''{\"event_type\":'']"
    by (simp add: frame_reject_def broken_frame_def js_startsWith_def js_substring_def json_eval)
  moreover have "frame_reject json_parse start_frame = []"
    using parse_start_frame by (simp add: frame_reject_def)
  moreover have "frame_reject json_parse complete_frame = []"
    using parse_complete_frame by (simp add: frame_reject_def)
  moreover have "frame_reject json_parse [] = []"
    by (simp add: frame_reject_def js_startsWith_def)
  ultimately show "delivery_rejects json_parse broken_then_good = [''{\"event_type\":'']"
    and "delivery_rejects json_parse (complete_frame @ sse_separator) = []"
    by (simp_all add: delivery_rejects_def split_broken_then_good split_complete_frame)
qed

subsection \<open>Malformed frames\<close>

text \<open>
  Claim C4. Whatever texts the delivery callbacks carry, the subscriber receives, in order,
  exactly the events of the segments that start with \<open>data: \<close> and whose text after the
  prefix parses: every such segment of every delivery is emitted, also after a segment that
  failed to parse. A malformed segment is logged with \<open>console.error\<close> and dropped,
  without stopping the Subject and without a failure signal.
\<close>

theorem malformed_frame_dropped_later_frames_emitted:
  "(let st = (streamAnswer parse (map delivery texts) :: ('e, 'x) stream_state) in
      emitted st = concat (map (delivery_events parse) texts)
    \<and> console_error st = concat (map (delivery_rejects parse) texts)
    \<and> \<not> isStopped (subject st)
    \<and> failures st = [])"
  using told_only_Next [OF streamAnswer_deliveries(1) [of parse texts]]
  by (simp add: Let_def streamAnswer_deliveries(2) streamAnswer_console)

theorem malformed_frame_dropped_later_frames_emitted_witness:
  "emitted (streamAnswer json_parse (map delivery [broken_then_good, complete_frame @ sse_separator])
             :: (jsval, string) stream_state)
     = [start_event, complete_event]
   \<and> console_error (streamAnswer json_parse (map delivery [broken_then_good, complete_frame @ sse_separator])
             :: (jsval, string) stream_state)
     = [''{\"event_type\":'']"
  using malformed_frame_dropped_later_frames_emitted
         [where 'x = string, of json_parse "[broken_then_good, complete_frame @ sse_separator]"]
  by (simp add: Let_def delivery_events_parts delivery_rejects_parts)

subsection \<open>Completion and failure\<close>

text \<open>
  One callback for an HTTP event leaves the Subject as it is, or adds events on the
  \<open>next\<close> channel of a Subject that is not stopped, or completes it.
\<close>

lemma on_next_told:
  "\<exists>es. (subject (on_next parse ev st) = subject st
        \<or> (\<not> isStopped (subject st) \<and>
           subject (on_next parse ev st) = (subject st)\<lparr>told := told (subject st) @ map Next es\<rparr>)
        \<or> (ev = Response \<and> subject (on_next parse ev st) = subject_complete (subject st)))"
proof (cases ev)
  case (DownloadProgress pt)
  show ?thesis
  proof (cases "isStopped (subject st)")
    case True
    then show ?thesis
      by (simp add: DownloadProgress on_next_def fold_on_line_stopped)
  next
    case False
    let ?lines = "js_split sse_separator (case pt of None \<Rightarrow> [] | Some t \<Rightarrow> t)"
    from fold_on_line_open [OF False, of parse ?lines]
    have "subject (fold (on_line parse) ?lines st) =
            (subject st)\<lparr>told := told (subject st) @ map Next (List.map_filter (frame_event parse) ?lines)\<rparr>"
      using False by (intro subject.equality) simp_all
    then show ?thesis using False
      by (auto simp add: DownloadProgress on_next_def)
  qed
qed (simp_all add: on_next_def)

lemma counts_Next:
  assumes "subject st' = (subject st)\<lparr>told := told (subject st) @ map Next es\<rparr>"
  shows "completions st' = completions st" and "failures st' = failures st"
    and "isStopped (subject st') = isStopped (subject st)"
proof -
  have "filter (\<lambda>n. n = Complete) (map Next es) = []" by (induction es) simp_all
  then show "completions st' = completions st" by (simp add: completions_def assms)
  have "concat (map (\<lambda>n. case n of Error x \<Rightarrow> [x] | _ \<Rightarrow> []) (map Next es)) = []"
    by (induction es) simp_all
  then show "failures st' = failures st" by (simp add: failures_def assms)
  show "isStopped (subject st') = isStopped (subject st)" by (simp add: assms)
qed

lemma settled_complete:
  assumes "settled st" and "subject st' = subject_complete (subject st)"
  shows "settled st'" and "completions st' = 1" and "isStopped (subject st')"
  using assms
  by (simp_all add: settled_def completions_def failures_def subject_complete_def)

lemma settled_on_next: "settled st \<Longrightarrow> settled (on_next parse ev st)"
proof -
  assume s: "settled st"
  from on_next_told [of parse ev st] obtain es where
    "subject (on_next parse ev st) = subject st
       \<or> (\<not> isStopped (subject st) \<and>
          subject (on_next parse ev st) = (subject st)\<lparr>told := told (subject st) @ map Next es\<rparr>)
       \<or> (ev = Response \<and> subject (on_next parse ev st) = subject_complete (subject st))"
    by blast
  then consider
      (same) "subject (on_next parse ev st) = subject st"
    | (more) "subject (on_next parse ev st) = (subject st)\<lparr>told := told (subject st) @ map Next es\<rparr>"
    | (finished) "subject (on_next parse ev st) = subject_complete (subject st)"
    by blast
  then show ?thesis
  proof cases
    case same
    with s show ?thesis by (simp add: settled_def completions_def failures_def)
  next
    case more
    from counts_Next [OF more] s show ?thesis by (simp add: settled_def)
  next
    case finished
    from settled_complete(1) [OF s finished] show ?thesis .
  qed
qed

lemma settled_fold: "settled st \<Longrightarrow> settled (fold (observer parse) (map HttpNext events) st)"
  by (induction events arbitrary: st) (simp_all add: settled_on_next)

lemma settled_init: "settled \<lparr>subject = new_subject, console_error = []\<rparr>"
  by (simp add: settled_def completions_def failures_def new_subject_def)

lemma settled_streamAnswer: "settled (streamAnswer parse (map HttpNext events))"
  unfolding streamAnswer_def by (rule settled_fold [OF settled_init])

lemma on_next_open:
  assumes "\<not> isStopped (subject st)" and "ev \<noteq> Response"
  shows "\<not> isStopped (subject (on_next parse ev st))"
proof -
  from on_next_told [of parse ev st] assms(2) obtain es where
    "subject (on_next parse ev st) = subject st
       \<or> subject (on_next parse ev st) = (subject st)\<lparr>told := told (subject st) @ map Next es\<rparr>"
    by blast
  with assms(1) show ?thesis by auto
qed

lemma fold_open:
  "\<not> isStopped (subject st) \<Longrightarrow> Response \<notin> set events \<Longrightarrow>
     \<not> isStopped (subject (fold (observer parse) (map HttpNext events) st))"
proof (induction events arbitrary: st)
  case Nil
  then show ?case by simp
next
  case (Cons ev evs)
  from Cons.prems have "\<not> isStopped (subject (on_next parse ev st))"
    by (intro on_next_open) auto
  from Cons.IH [OF this] Cons.prems(2) show ?case by simp
qed

lemma unstopped_before_response:
  "Response \<notin> set events \<Longrightarrow> \<not> isStopped (subject (streamAnswer parse (map HttpNext events)))"
  unfolding streamAnswer_def by (rule fold_open) (simp_all add: new_subject_def)

text \<open>
  Claim C6. When the response completes normally, the request sends its events, the
  \<open>Response\<close> event and then its own completion. Both callbacks call \<open>complete\<close> on
  the Subject; the subscriber is told of completion exactly once, and of no failure.
\<close>

theorem completion_signalled_once:
  "(let st = (streamAnswer parse (map HttpNext events @ [HttpNext Response, HttpComplete])
               :: ('e, 'x) stream_state)
    in completions st = 1 \<and> failures st = [])"
proof -
  let ?st0 = "fold (observer parse) (map HttpNext events) \<lparr>subject = new_subject, console_error = []\<rparr>
                :: ('e, 'x) stream_state"
  let ?st1 = "on_next parse Response ?st0"
  let ?st2 = "observer parse HttpComplete ?st1"
  have s0: "settled ?st0" by (rule settled_fold [OF settled_init])
  have r: "subject ?st1 = subject_complete (subject ?st0)" by (simp add: on_next_def)
  note a = settled_complete [OF s0 r]
  have c: "subject ?st2 = subject_complete (subject ?st1)" by simp
  note b = settled_complete [OF a(1) c]
  have eq: "streamAnswer parse (map HttpNext events @ [HttpNext Response, HttpComplete]) = ?st2"
    by (simp add: streamAnswer_def)
  from b(1) have f: "failures ?st2 = []" unfolding settled_def by (rule conjunct1)
  show ?thesis unfolding Let_def eq using b(2) f by (rule conjI)
qed

theorem completion_signalled_once_witness:
  "told (subject (streamAnswer json_parse
      (map HttpNext [Sent, ResponseHeader, DownloadProgress (Some (complete_frame @ sse_separator))]
         @ [HttpNext Response, HttpComplete]) :: (jsval, string) stream_state))
     = [Next complete_event, Complete]
   \<and> completions (streamAnswer json_parse
      (map HttpNext [Sent, ResponseHeader, DownloadProgress (Some (complete_frame @ sse_separator))]
         @ [HttpNext Response, HttpComplete]) :: (jsval, string) stream_state) = 1"
proof -
  let ?st = "streamAnswer json_parse
      (map HttpNext [Sent, ResponseHeader, DownloadProgress (Some (complete_frame @ sse_separator))]
         @ [HttpNext Response, HttpComplete]) :: (jsval, string) stream_state"
  have t: "told (subject ?st) = [Next complete_event, Complete]"
    by (simp add: streamAnswer_def on_next_def on_line_def split_complete_frame Let_def
        parse_complete_frame new_subject_def subject_next_def subject_complete_def)
       (simp add: js_startsWith_def complete_frame_def)
  from completion_signalled_once
         [where 'x = string, of json_parse "[Sent, ResponseHeader, DownloadProgress (Some (complete_frame @ sse_separator))]"]
  have "completions ?st = 1" by (simp add: Let_def)
  with t show ?thesis by (rule conjI)
qed

text \<open>
  Claim C5. When the request fails at the transport level, its observable sends an error in
  place of the \<open>Response\<close> event. The subscriber is then told what it had been told so far,
  followed by that one failure: the failure is signalled once on the error channel, no
  completion is signalled, and the error callback adds no event to the \<open>next\<close> channel.
\<close>

theorem transport_failure_signalled_once:
  fixes parse :: "string \<Rightarrow> 'e option" and error :: 'x
  assumes "Response \<notin> set events"
  shows "(let before = (streamAnswer parse (map HttpNext events) :: ('e, 'x) stream_state);
              st = streamAnswer parse (map HttpNext events @ [HttpError error])
          in told (subject st) = told (subject before) @ [Error error]
           \<and> failures st = [error]
           \<and> completions st = 0
           \<and> emitted st = emitted before)"
proof -
  let ?before = "streamAnswer parse (map HttpNext events) :: ('e, 'x) stream_state"
  let ?st = "streamAnswer parse (map HttpNext events @ [HttpError error])"
  have step: "?st = ?before\<lparr>subject := subject_error error (subject ?before)\<rparr>"
    by (simp add: streamAnswer_def)
  have "open": "\<not> isStopped (subject ?before)"
    by (rule unstopped_before_response [OF assms])
  have "settled ?before" by (rule settled_streamAnswer)
  with "open"
  have f0: "failures ?before = []" and c0: "completions ?before = 0"
    by (simp_all add: settled_def)
  have t: "told (subject ?st) = told (subject ?before) @ [Error error]"
    unfolding step using "open" by (simp add: subject_error_def)
  have f: "failures ?st = [error]"
    using f0 by (simp add: failures_def t)
  have c: "completions ?st = 0"
    using c0 by (simp add: completions_def t)
  have e: "emitted ?st = emitted ?before"
    by (simp add: emitted_def t)
  from t f c e show ?thesis by (simp add: Let_def)
qed

theorem transport_failure_signalled_once_witness:
  "Response \<notin> set [Sent, DownloadProgress (Some first_part)]
   \<and> told (subject (streamAnswer json_parse
        (map HttpNext [Sent, DownloadProgress (Some first_part)] @ [HttpError ''connection lost''])
        :: (jsval, string) stream_state))
     = [Next start_event, Error ''connection lost'']"
proof -
  have h: "Response \<notin> set [Sent, DownloadProgress (Some first_part)]" by simp
  have b: "told (subject (streamAnswer json_parse (map HttpNext [Sent, DownloadProgress (Some first_part)])
             :: (jsval, string) stream_state)) = [Next start_event]"
    by (simp add: streamAnswer_def on_next_def on_line_def split_first_part Let_def
        parse_start_frame new_subject_def subject_next_def)
       (simp add: js_startsWith_def start_frame_def)
  from transport_failure_signalled_once [OF h, of json_parse "''connection lost''"] b
  have "told (subject (streamAnswer json_parse
        (map HttpNext [Sent, DownloadProgress (Some first_part)] @ [HttpError ''connection lost''])
        :: (jsval, string) stream_state)) = [Next start_event, Error ''connection lost'']"
    by (simp add: Let_def)
  with h show ?thesis by (rule conjI)
qed


subsection \<open>A frame split across two deliveries\<close>

text \<open>
  Claim C1. The body \<open>start_frame\<close>, blank line, \<open>complete_frame\<close>, blank line arrives in
  two parts, cut two characters into the second frame. Angular hands each callback the text
  received so far, so the second callback carries both parts: the consumer splits that whole
  text again and emits the \<open>start\<close> event a second time, three events in all. Were each
  callback handed only the new characters, the second text would begin with \<open>ta: \<close> and
  only the \<open>start\<close> event would be emitted. In neither case does the subscriber receive
  exactly the two events of the two frames.
\<close>

theorem split_frame_not_buffered:
  "emitted (streamAnswer json_parse
      [delivery first_part, delivery (first_part @ second_part), HttpNext Response, HttpComplete]
      :: (jsval, string) stream_state)
     = [start_event, start_event, complete_event]
   \<and> emitted (streamAnswer json_parse
      [delivery first_part, delivery second_part, HttpNext Response, HttpComplete]
      :: (jsval, string) stream_state)
     = [start_event]"
proof -
  have cumulative: "emitted (streamAnswer json_parse
      [delivery first_part, delivery (first_part @ second_part), HttpNext Response, HttpComplete]
      :: (jsval, string) stream_state) = [start_event, start_event, complete_event]"
    by (simp add: streamAnswer_def delivery_def on_next_def on_line_def split_first_part
        split_whole_body Let_def parse_start_frame parse_complete_frame)
       (simp add: js_startsWith_def start_frame_def complete_frame_def new_subject_def
        subject_next_def subject_complete_def emitted_def)
  have delta: "emitted (streamAnswer json_parse
      [delivery first_part, delivery second_part, HttpNext Response, HttpComplete]
      :: (jsval, string) stream_state) = [start_event]"
    by (simp add: streamAnswer_def delivery_def on_next_def on_line_def split_first_part
        split_second_part Let_def parse_start_frame parse_complete_frame)
       (simp add: js_startsWith_def start_frame_def complete_frame_def new_subject_def
        subject_next_def subject_complete_def emitted_def)
  from cumulative delta show ?thesis by (rule conjI)
qed

section \<open>Properties of the event handlers\<close>

text \<open>
  Claim C7. For an \<open>error\<close> event whose payload is exactly \<open>{message: m}\<close>, the handler
  of the interview room appends the system message \<open>Error: m\<close> and the handler of the search
  page stores \<open>m\<close> in \<open>streamingState.error\<close>: \<open>data.error\<close> is \<open>undefined\<close>, so
  \<open>data.error || data.message\<close> is \<open>m\<close>. Both clear the streaming flag.
\<close>

theorem error_text_same_at_both_call_sites:
  "room_handleStreamEvent pf now (error_event ts m) c
     = Returned ((addSystemMessage now (''Error: '' @ m) c)\<lparr>isStreaming := False\<rparr>)
   \<and> search_handleStreamEvent pf (error_event ts m) st
     = Returned (st\<lparr>ss_error := JStr m, ss_isStreaming := False\<rparr>)"
  by (simp add: room_handleStreamEvent_def search_handleStreamEvent_def error_event_def
      js_get_def js_get2_def js_or_def js_truthy_def)

theorem error_text_same_at_both_call_sites_witness:
  "room_handleStreamEvent plain_platform 7 (error_event (JStr ''t2'') ''LLM unavailable'') fresh_room
     = Returned (fresh_room\<lparr>messages := messages fresh_room @
          [\<lparr>role = RoleSystem, content = JStr ''Error: LLM unavailable'', timestamp = 7, agentType = None\<rparr>],
          isStreaming := False\<rparr>)
   \<and> search_handleStreamEvent plain_platform (error_event (JStr ''t2'') ''LLM unavailable'') resetStreamingState
     = Returned (resetStreamingState\<lparr>ss_error := JStr ''LLM unavailable'', ss_isStreaming := False\<rparr>)"
  using error_text_same_at_both_call_sites
          [of plain_platform 7 "JStr ''t2''" "''LLM unavailable''" fresh_room resetStreamingState]
  by (simp add: addSystemMessage_def)

text \<open>
  Claim C10. With a question field that is empty or holds only white space, \<open>sendQuestion\<close>
  returns at once: no request is handed to the stream service and the component is left
  exactly as it was.
\<close>

lemma js_trim_blank:
  assumes "\<forall>ch \<in> set s. js_is_whitespace ch"
  shows "js_trim s = []"
proof -
  from assms have d: "dropWhile js_is_whitespace s = []"
    by (simp add: dropWhile_eq_Nil_conv)
  show ?thesis unfolding js_trim_def d by simp
qed

theorem sendQuestion_blank_is_no_op:
  assumes "\<forall>ch \<in> set (question c). js_is_whitespace ch"
  shows "sendQuestion now c = (c, None)"
  using js_trim_blank [OF assms] by (simp add: sendQuestion_def)

theorem sendQuestion_blank_is_no_op_witness:
  "js_is_whitespace (CHR '' '') \<and> js_is_whitespace (CHR 0x09) \<and> js_is_whitespace (CHR 0x0A)
   \<and> sendQuestion 7 (fresh_room\<lparr>question := [CHR '' '', CHR 0x09, CHR 0x0A]\<rparr>)
       = (fresh_room\<lparr>question := [CHR '' '', CHR 0x09, CHR 0x0A]\<rparr>, None)"
proof -
  have w: "js_is_whitespace (CHR '' '')" "js_is_whitespace (CHR 0x09)" "js_is_whitespace (CHR 0x0A)"
    by (simp_all add: js_is_whitespace_def)
  then have h: "\<forall>ch \<in> set (question (fresh_room\<lparr>question := [CHR '' '', CHR 0x09, CHR 0x0A]\<rparr>)).
                  js_is_whitespace ch"
    by simp
  from w sendQuestion_blank_is_no_op [OF h, of 7] show ?thesis by simp
qed

text \<open>A question with a visible character is sent, white space included, and the field is cleared.\<close>

lemma sendQuestion_sends:
  "snd (sendQuestion 7 (fresh_room\<lparr>question := ''Hi ''\<rparr>))
     = Some \<lparr>req_question = ''Hi '', req_context = None, req_conversation_history = []\<rparr>"
  "isStreaming (fst (sendQuestion 7 (fresh_room\<lparr>question := ''Hi ''\<rparr>)))"
  "question (fst (sendQuestion 7 (fresh_room\<lparr>question := ''Hi ''\<rparr>))) = []"
  "length (messages (fst (sendQuestion 7 (fresh_room\<lparr>question := ''Hi ''\<rparr>)))) = 2"
  by (simp_all add: sendQuestion_def js_trim_def js_is_whitespace_def Let_def addUserMessage_def fresh_room_def)

section \<open>Properties of the pipe and of the interview list\<close>

text \<open>
  Claim C8. For \<open>undefined\<close>, \<open>null\<close> and the empty string, \<open>transform\<close> returns the empty
  string whatever the regular expression engine does: no replacement takes part in the result.
\<close>

theorem transform_falsy_returns_empty:
  "transform replace JUndefined = Inr (PlainString [])
   \<and> transform replace JNull = Inr (PlainString [])
   \<and> transform replace (JStr []) = Inr (PlainString [])"
  by (simp add: transform_def js_truthy_def)

theorem transform_falsy_returns_empty_witness:
  "transform (\<lambda>re rep h. h @ rep) JUndefined = Inr (PlainString [])
   \<and> transform (\<lambda>re rep h. h @ rep) JNull = Inr (PlainString [])
   \<and> transform (\<lambda>re rep h. h @ rep) (JStr []) = Inr (PlainString [])"
  using transform_falsy_returns_empty [of "\<lambda>re rep h. h @ rep"] .

text \<open>A string with a character goes through the replacements and is wrapped; a number has no \<open>replace\<close>.\<close>

lemma transform_converts:
  "transform (\<lambda>re rep h. h) (JStr ''hi'') = Inr (TrustedHtml ''<p>hi</p>'')"
  "transform (\<lambda>re rep h. h) (JNum (Fin 5)) = Inl TypeError"
  by (simp_all add: transform_def js_truthy_def js_startsWith_def markdown_rules_def cleanup_rules_def)

text \<open>
  Claim C9. \<open>getSuccessRate\<close> returns a finite number between 0 and 100, never \<open>NaN\<close> or an
  infinity: it divides only by a positive count of completed interviews, returns 0 when
  there is none, and the successful interviews are among the completed ones.
\<close>

lemma ratio_percent:
  fixes a b :: nat
  assumes "a \<le> b" and "0 < b"
  shows "(of_nat a / of_nat b * 100 :: rat) \<le> 100" and "0 \<le> (of_nat a / of_nat b * 100 :: rat)"
proof -
  have "(of_nat a :: rat) \<le> of_nat b" using assms(1) by simp
  then have "(of_nat a :: rat) / of_nat b \<le> 1" using assms(2) by (simp add: divide_le_eq)
  then have "(of_nat a :: rat) / of_nat b * 100 \<le> 1 * 100" by (rule mult_right_mono) simp
  then show "(of_nat a / of_nat b * 100 :: rat) \<le> 100" by simp
  show "0 \<le> (of_nat a / of_nat b * 100 :: rat)" by simp
qed

lemma getSuccessRate_value:
  "getSuccessRate c =
     (let completed = filter (\<lambda>i. interview_status i = ''completed'') (interviews c);
          successful = filter (\<lambda>i. interview_result i \<in> set [''passed'', ''hire'', ''strong_hire'']) completed
      in if completed = [] then Fin 0
         else Fin (of_nat (length successful) / of_nat (length completed) * 100))"
  by (simp add: getSuccessRate_def Let_def)

theorem getSuccessRate_bounded:
  "\<exists>r. getSuccessRate c = Fin r \<and> 0 \<le> r \<and> r \<le> 100 \<and> (getCompletedInterviews c = 0 \<longrightarrow> r = 0)"
proof -
  let ?completed = "filter (\<lambda>i. interview_status i = ''completed'') (interviews c)"
  let ?successful = "filter (\<lambda>i. interview_result i \<in> set [''passed'', ''hire'', ''strong_hire'']) ?completed"
  show ?thesis
  proof (cases "?completed = []")
    case True
    then have "getSuccessRate c = Fin 0" by (simp add: getSuccessRate_value)
    then have "getSuccessRate c = Fin 0 \<and> (0::rat) \<le> 0 \<and> (0::rat) \<le> 100
                 \<and> (getCompletedInterviews c = 0 \<longrightarrow> (0::rat) = 0)"
      by simp
    then show ?thesis by (rule exI)
  next
    case False
    let ?r = "(of_nat (length ?successful) / of_nat (length ?completed) * 100) :: rat"
    have le: "length ?successful \<le> length ?completed" by (rule length_filter_le)
    have pos: "0 < length ?completed" using False by simp
    have eq: "getSuccessRate c = Fin ?r" using False by (simp add: getSuccessRate_value Let_def)
    have up: "?r \<le> 100" by (rule ratio_percent(1) [OF le pos])
    have lo: "0 \<le> ?r" by (rule ratio_percent(2) [OF le pos])
    have nz: "getCompletedInterviews c = 0 \<longrightarrow> ?r = 0"
      using pos by (simp add: getCompletedInterviews_def)
    from eq lo up nz
    have "getSuccessRate c = Fin ?r \<and> 0 \<le> ?r \<and> ?r \<le> 100 \<and> (getCompletedInterviews c = 0 \<longrightarrow> ?r = 0)"
      by (intro conjI)
    then show ?thesis by (rule exI)
  qed
qed

theorem getSuccessRate_bounded_witness:
  "getSuccessRate sample_list = Fin 50 \<and> (0::rat) \<le> 50 \<and> (50::rat) \<le> 100
   \<and> getCompletedInterviews (sample_list\<lparr>interviews := []\<rparr>) = 0
   \<and> getSuccessRate (sample_list\<lparr>interviews := []\<rparr>) = Fin 0"
  using getSuccessRate_bounded [of sample_list] getSuccessRate_bounded [of "sample_list\<lparr>interviews := []\<rparr>"]
  by (simp add: getSuccessRate_def getCompletedInterviews_def sample_list_def sample_interviews_def Let_def)


section \<open>Properties of the stream producer\<close>

subsection \<open>Slicing\<close>

lemma concat_slice_chunks: "0 < n \<Longrightarrow> concat (slice_chunks n s) = s"
proof (induction n s rule: slice_chunks.induct)
  case (1 n s)
  show ?case
  proof (cases "s = []")
    case True
    then show ?thesis by (simp add: slice_chunks.simps)
  next
    case False
    with "1.prems" have "concat (slice_chunks n (drop n s)) = drop n s"
      by (intro "1.IH") simp_all
    with False "1.prems" show ?thesis
      by (subst slice_chunks.simps) simp
  qed
qed

lemma lengths_slice_chunks:
  "0 < n \<Longrightarrow> map length (slice_chunks n s) =
      replicate (length s div n) n @ (if length s mod n = 0 then [] else [length s mod n])"
proof (induction n s rule: slice_chunks.induct)
  case (1 n s)
  show ?case
  proof (cases "s = []")
    case True
    then show ?thesis by (simp add: slice_chunks.simps)
  next
    case False
    with "1.prems" have IH: "map length (slice_chunks n (drop n s)) =
        replicate (length (drop n s) div n) n @
          (if length (drop n s) mod n = 0 then [] else [length (drop n s) mod n])"
      by (intro "1.IH") simp_all
    show ?thesis
    proof (cases "n \<le> length s")
      case True
      then have d: "length s div n = Suc ((length s - n) div n)"
        and m: "length s mod n = (length s - n) mod n"
        using "1.prems" by (simp_all add: le_div_geq le_mod_geq)
      from False "1.prems" True IH show ?thesis
        by (subst slice_chunks.simps) (simp add: d m)
    next
      case short: False
      then have "drop n s = []" by simp
      with False "1.prems" short show ?thesis
        by (subst slice_chunks.simps) (simp add: slice_chunks.simps)
    qed
  qed
qed

subsection \<open>The parts of a sequence\<close>

lemma content_events_parts:
  "content_chunks (content_events cs) = cs"
  "final_flags (content_events cs) = replicate (length cs - 1) False @ (if cs = [] then [] else [True])"
  "filter is_start (content_events cs) = []"
  "filter is_routing (content_events cs) = []"
  "filter is_complete (content_events cs) = []"
  "filter is_error (content_events cs) = []"
  "full_answers (content_events cs) = []"
  by (induction cs rule: content_events.induct)
     (simp_all add: content_chunks_def final_flags_def full_answers_def is_start_def is_routing_def
        is_complete_def is_error_def)

lemma parts_append:
  "content_chunks (xs @ ys) = content_chunks xs @ content_chunks ys"
  "final_flags (xs @ ys) = final_flags xs @ final_flags ys"
  "full_answers (xs @ ys) = full_answers xs @ full_answers ys"
  by (simp_all add: content_chunks_def final_flags_def full_answers_def)

lemma parts_Cons:
  "content_chunks (e # es) = (case e of EvContent c _ \<Rightarrow> [c] | _ \<Rightarrow> []) @ content_chunks es"
  "final_flags (e # es) = (case e of EvContent _ f \<Rightarrow> [f] | _ \<Rightarrow> []) @ final_flags es"
  "full_answers (e # es) = (case e of EvAnswerComplete a _ _ _ \<Rightarrow> [a] | _ \<Rightarrow> []) @ full_answers es"
  "content_chunks [] = []" "final_flags [] = []" "full_answers [] = []"
  by (simp_all add: content_chunks_def final_flags_def full_answers_def)

lemma event_kinds:
  "is_start (EvStart a b)" "\<not> is_start (EvRouting c d k)" "\<not> is_start (EvProcessing a)"
  "\<not> is_start (EvContent a f)" "\<not> is_start (EvAnswerComplete a n m b)" "\<not> is_start (EvFollowUps qs)"
  "\<not> is_start (EvComplete a b f)" "\<not> is_start (EvError a)"
  "\<not> is_routing (EvStart a b)" "is_routing (EvRouting c d k)" "\<not> is_routing (EvProcessing a)"
  "\<not> is_routing (EvContent a f)" "\<not> is_routing (EvAnswerComplete a n m b)" "\<not> is_routing (EvFollowUps qs)"
  "\<not> is_routing (EvComplete a b f)" "\<not> is_routing (EvError a)"
  "\<not> is_complete (EvStart a b)" "\<not> is_complete (EvRouting c d k)" "\<not> is_complete (EvProcessing a)"
  "\<not> is_complete (EvContent a f)" "\<not> is_complete (EvAnswerComplete a n m b)" "\<not> is_complete (EvFollowUps qs)"
  "is_complete (EvComplete a b f)" "\<not> is_complete (EvError a)"
  "\<not> is_error (EvStart a b)" "\<not> is_error (EvRouting c d k)" "\<not> is_error (EvProcessing a)"
  "\<not> is_error (EvContent a f)" "\<not> is_error (EvAnswerComplete a n m b)" "\<not> is_error (EvFollowUps qs)"
  "\<not> is_error (EvComplete a b f)" "is_error (EvError a)"
  by (simp_all add: is_start_def is_routing_def is_complete_def is_error_def)

lemma sample_stream:
  "answer_stream sample_config ''What is CAP?'' (Inr (''technical'', ''keyword match'', 9 / 10))
     (Inr (''Hello world'', ''{}'')) (Inr [''Why?'']) = Inr sample_events"
  by (simp add: answer_stream_def generate_stream_events_def sample_config_def sample_events_def
      slice_chunks.simps js_is_whitespace_def)

subsection \<open>Shape of the sequence\<close>

text \<open>
  Claim C2. The events the producer emits for an accepted question hold exactly one
  \<open>start\<close>, at most one \<open>routing\<close>, content events whose \<open>is_final\<close> flags are all false
  except the last, which is true, and exactly one terminal event, \<open>complete\<close> or \<open>error\<close>,
  which ends the sequence.
\<close>

theorem producer_sequence_shape:
  assumes "answer_stream cfg q route_result answer_result follow_up_result = Inr evs"
  shows "length (filter is_start evs) = 1
       \<and> length (filter is_routing evs) \<le> 1
       \<and> final_flags evs =
           replicate (length (final_flags evs) - 1) False @ (if final_flags evs = [] then [] else [True])
       \<and> length (filter is_complete evs) + length (filter is_error evs) = 1
       \<and> (is_complete (last evs) \<or> is_error (last evs))"
proof -
  from assms have evs: "evs = generate_stream_events cfg q route_result answer_result follow_up_result"
    by (simp add: answer_stream_def split: if_splits)
  show ?thesis
    unfolding evs generate_stream_events_def
    by (simp add: parts_append parts_Cons content_events_parts event_kinds split: sum.splits prod.splits)
qed

theorem producer_sequence_shape_witness:
  "answer_stream sample_config ''What is CAP?'' (Inr (''technical'', ''keyword match'', 9 / 10))
     (Inr (''Hello world'', ''{}'')) (Inr [''Why?'']) = Inr sample_events
   \<and> length (filter is_start sample_events) = 1
   \<and> length (filter is_routing sample_events) \<le> 1
   \<and> final_flags sample_events = [False, False, True]
   \<and> length (filter is_complete sample_events) + length (filter is_error sample_events) = 1
   \<and> is_complete (last sample_events)"
proof -
  have flags: "final_flags sample_events = [False, False, True]"
    and final: "is_complete (last sample_events)"
    by (simp_all add: sample_events_def final_flags_def is_complete_def)
  from producer_sequence_shape [OF sample_stream] sample_stream flags final
  show ?thesis by simp
qed

subsection \<open>Chunks and the full answer\<close>

text \<open>
  Claim C3. With a positive chunk length, a stream whose routing and answer steps succeed
  carries one \<open>answer_complete\<close> event, and the chunks of its content events, concatenated in
  order, are the full answer of that event. The chunks are the slices of the configured
  length: all of that length, except a shorter last one when the length of the answer is not
  a multiple of it.
\<close>

theorem content_chunks_rebuild_full_answer:
  assumes "0 < chunk_length cfg"
  shows "(let evs = generate_stream_events cfg q (Inr route) (Inr (full, meta)) follow_up_result;
              chunks = content_chunks evs
          in full_answers evs = [full]
           \<and> concat chunks = full
           \<and> map length chunks =
               replicate (length full div chunk_length cfg) (chunk_length cfg) @
                 (if length full mod chunk_length cfg = 0 then [] else [length full mod chunk_length cfg]))"
proof -
  have "content_chunks (generate_stream_events cfg q (Inr route) (Inr (full, meta)) follow_up_result) =
          slice_chunks (chunk_length cfg) full"
    and "full_answers (generate_stream_events cfg q (Inr route) (Inr (full, meta)) follow_up_result) = [full]"
    unfolding generate_stream_events_def
    by (simp_all add: parts_append parts_Cons content_events_parts split: sum.splits prod.splits)
  then show ?thesis
    using concat_slice_chunks [OF assms, of full] lengths_slice_chunks [OF assms, of full]
    by (simp add: Let_def)
qed

theorem content_chunks_rebuild_full_answer_witness:
  "0 < chunk_length sample_config
   \<and> content_chunks sample_events = [''Hello'', '' worl'', ''d'']
   \<and> full_answers sample_events = [''Hello world'']
   \<and> concat (content_chunks sample_events) = ''Hello world''
   \<and> map length (content_chunks sample_events) = [5, 5, 1]"
proof -
  have h: "0 < chunk_length sample_config" by (simp add: sample_config_def)
  have evs: "generate_stream_events sample_config ''What is CAP?'' (Inr (''technical'', ''keyword match'', 9 / 10))
     (Inr (''Hello world'', ''{}'')) (Inr [''Why?'']) = sample_events"
    using sample_stream by (simp add: answer_stream_def split: if_splits)
  have chunks: "content_chunks sample_events = [''Hello'', '' worl'', ''d'']"
    by (simp add: sample_events_def content_chunks_def)
  from content_chunks_rebuild_full_answer
         [OF h, of "''What is CAP?''" "(''technical'', ''keyword match'', 9 / 10)" "''Hello world''" "''{}''" "Inr [''Why?'']"]
  have "full_answers sample_events = [''Hello world'']
      \<and> concat (content_chunks sample_events) = ''Hello world''
      \<and> map length (content_chunks sample_events) = [5, 5, 1]"
    unfolding evs Let_def by (simp add: sample_config_def chunks)
  with h chunks show ?thesis by simp
qed

end
